theory Spec2Isabelle
  imports Complex_Main "HOL-Library.Log_Nat"
begin

section \<open>Machine integers and conversions of the Go runtime\<close>

text \<open>
  Go's \<^verbatim>\<open>int\<close> and \<^verbatim>\<open>time.Duration\<close> are taken as 64-bit two's complement
  integers (a 64-bit platform). They are modelled by \<^typ>\<open>int\<close> with the wrap-around
  written out. A \<^verbatim>\<open>float64\<close> is modelled by the \<^typ>\<open>real\<close> it stands for. The
  variance models and the constructor take each floating-point operation without
  rounding error; the durations of the CPU loop, where the rounding decides which
  microsecond the truncation keeps, round each operation as the machine does
  (\<open>fl64\<close> below). An operation whose machine result is not a finite number (a
  division by zero) is a \<open>None\<close>.
\<close>

definition int64 :: "int \<Rightarrow> bool" where
  "int64 i = (- (2 ^ 63) \<le> i \<and> i < 2 ^ 63)"

definition wrap64 :: "int \<Rightarrow> int" where
  "wrap64 i = (i + 2 ^ 63) mod 2 ^ 64 - 2 ^ 63"

text \<open>Go's integer quotient truncates towards zero; the remainder has the dividend's sign.\<close>

definition go_quo :: "int \<Rightarrow> int \<Rightarrow> int" where
  "go_quo a b = sgn a * sgn b * (\<bar>a\<bar> div \<bar>b\<bar>)"

definition go_rem :: "int \<Rightarrow> int \<Rightarrow> int" where
  "go_rem a b = a - b * go_quo a b"

text \<open>
  The conversion \<^verbatim>\<open>int(f)\<close> of a finite float discards the fraction (towards zero)
  when the result fits the integer type. When it does not fit, the Go specification
  leaves the result to the implementation; the model takes the result of amd64, the
  least \<^verbatim>\<open>int\<close>.
\<close>

definition float_to_int :: "real \<Rightarrow> int" where
  "float_to_int f =
     (let i = (if 0 \<le> f then \<lfloor>f\<rfloor> else \<lceil>f\<rceil>)
      in if int64 i then i else - (2 ^ 63))"

text \<open>
  The rounding of a float64 operation (IEEE 754 binary64, to nearest, ties to even):
  around \<open>r\<close> the representable numbers are the multiples of \<open>2 ^ (e - 52)\<close>, where
  \<open>2 ^ e \<le> \<bar>r\<bar> < 2 ^ (e + 1)\<close> and \<open>e\<close> is not below \<open>-1022\<close>. The model has no
  overflow to infinity (the magnitude stays below \<open>2 ^ 1024\<close> where it is used).
\<close>

definition round_half_even :: "real \<Rightarrow> int" where
  "round_half_even r =
     (let n = \<lfloor>r\<rfloor>; d = r - real_of_int n
      in if d < 1 / 2 then n else if 1 / 2 < d then n + 1 else if even n then n else n + 1)"

definition pow2 :: "int \<Rightarrow> real" where
  "pow2 e = (if 0 \<le> e then 2 ^ nat e else 1 / 2 ^ nat (- e))"

definition exponent64 :: "real \<Rightarrow> int" where
  "exponent64 r =
     (if 1 \<le> \<bar>r\<bar> then bitlen \<lfloor>\<bar>r\<bar>\<rfloor> - 1 else - bitlen (\<lceil>1 / \<bar>r\<bar>\<rceil> - 1))"

definition fl64 :: "real \<Rightarrow> real" where
  "fl64 r =
     (if r = 0 then 0
      else (let q = pow2 (max (exponent64 r) (- 1022) - 52)
            in real_of_int (round_half_even (r / q)) * q))"

text \<open>\<^verbatim>\<open>math.Copysign(f, sign)\<close>: the magnitude of \<open>f\<close> with the sign of \<open>sign\<close>.\<close>

definition Copysign :: "real \<Rightarrow> real \<Rightarrow> real" where
  "Copysign f sign = (if sign < 0 then - \<bar>f\<bar> else \<bar>f\<bar>)"

datatype panic = MakesliceCapOutOfRange | IntegerDivideByZero | FloatNotFinite

section \<open>The node generator\<close>

text \<open>
  A channel of empty structs is its capacity and the number of values it buffers.
  A send on a full channel and a receive on an empty one do not complete: \<open>None\<close>.
\<close>

record chan =
  capacity :: nat
  buffered :: nat

definition make_chan :: "nat \<Rightarrow> chan" where
  "make_chan n = \<lparr>capacity = n, buffered = 0\<rparr>"

definition send :: "chan \<Rightarrow> chan option" where
  "send c = (if buffered c < capacity c then Some (c\<lparr>buffered := buffered c + 1\<rparr>) else None)"

definition recv :: "chan \<Rightarrow> chan option" where
  "recv c = (if 0 < buffered c then Some (c\<lparr>buffered := buffered c - 1\<rparr>) else None)"

text \<open>
  The two time stamps of the state (\<^verbatim>\<open>startTime\<close>, \<^verbatim>\<open>lastTickTime\<close>) and the logger
  only feed the residual sleep of a tick and the log lines; they are left out.
\<close>

record NodeGeneratorState =
  baselineBytes :: int
  maxVarianceBytes :: real
  currentBytes :: int
  currentTick :: int
  ticksPerPeriod :: int

record NodeGenerator =
  cpuCoresCount :: real
  cpuPercentage :: real
  memoryMBytes :: int
  memoryVariance :: int
  memoryVarianceFun :: string
  memoryVariancePeriod :: int
  running :: bool
  state :: NodeGeneratorState
  finished :: "chan option"

text \<open>
  Durations count nanoseconds: \<^verbatim>\<open>time.Microsecond\<close>, \<^verbatim>\<open>time.Millisecond\<close> and
  \<^verbatim>\<open>time.Second\<close> of the standard library, and the tick interval of the source.
\<close>

definition Microsecond :: int where
  "Microsecond = 1000"

definition Millisecond :: int where
  "Millisecond = 1000000"

definition Second :: int where
  "Second = 1000000000"

definition TICK_INTERVAL :: int where
  "TICK_INTERVAL = 500 * Millisecond"

definition NewNodeGenerator ::
  "real \<Rightarrow> real \<Rightarrow> int \<Rightarrow> int \<Rightarrow> string \<Rightarrow> int \<Rightarrow> NodeGenerator" where
  "NewNodeGenerator cores percentage mMBytes mVariance mVarianceFun mVariancePeriod =
     \<lparr>cpuCoresCount = cores,
      cpuPercentage = percentage,
      memoryMBytes = mMBytes,
      memoryVariance = mVariance,
      memoryVarianceFun = mVarianceFun,
      memoryVariancePeriod = mVariancePeriod,
      running = False,
      state =
        \<lparr>baselineBytes = wrap64 (mMBytes * 1048576),
         maxVarianceBytes = 1048576 * real_of_int (wrap64 (mMBytes * mVariance)) / 100,
         currentBytes = wrap64 (mMBytes * 1048576),
         currentTick = 0,
         ticksPerPeriod = go_quo (wrap64 (mVariancePeriod * Second)) TICK_INTERVAL\<rparr>,
      finished = None\<rparr>"

text \<open>
  The comment on \<^verbatim>\<open>currentTick\<close> in the state: a value in the interval
  \<open>[0, ticksPerPeriod)\<close>.
\<close>

definition phaseInv :: "NodeGeneratorState \<Rightarrow> bool" where
  "phaseInv st = (0 \<le> currentTick st \<and> currentTick st < ticksPerPeriod st)"

subsection \<open>Phase and variance models\<close>

text \<open>
  \<^verbatim>\<open>x()\<close> is the current tick over the ticks per period, \<^verbatim>\<open>linearX()\<close> the current tick
  over the ticks per period minus one. Both are float divisions: with a zero divisor
  the machine result is a NaN or an infinity, here \<open>None\<close>.
\<close>

definition x_frac :: "NodeGenerator \<Rightarrow> real option" where
  "x_frac g =
     (let x0 = currentTick (state g); x1 = ticksPerPeriod (state g)
      in if x1 = 0 then None else Some (real_of_int x0 / real_of_int x1))"

definition linearX :: "NodeGenerator \<Rightarrow> real option" where
  "linearX g =
     (let x0 = currentTick (state g); x1 = ticksPerPeriod (state g)
      in if wrap64 (x1 - 1) = 0 then None
         else Some (real_of_int x0 / real_of_int (wrap64 (x1 - 1))))"

definition rad :: "NodeGenerator \<Rightarrow> real option" where
  "rad g = map_option (\<lambda>xv. 2 * pi * xv) (x_frac g)"

text \<open>
  A draw is what one call of a variance function reads from the random source: the
  value of \<^verbatim>\<open>rand.Intn(2)\<close>, which is 0 or 1, and the value of \<^verbatim>\<open>rand.Float64()\<close>,
  which lies in \<open>[0, 1)\<close>. A variance function returns \<open>None\<close> where the float it
  converts to \<^verbatim>\<open>int\<close> is not finite (Go leaves the result of that conversion open).
\<close>

type_synonym draw = "int \<times> real"

type_synonym varianceFunc = "draw \<Rightarrow> NodeGenerator \<Rightarrow> int option"

definition valid_draw :: "draw \<Rightarrow> bool" where
  "valid_draw dr = ((fst dr = 0 \<or> fst dr = 1) \<and> 0 \<le> snd dr \<and> snd dr < 1)"

definition varianceLinear :: varianceFunc where
  "varianceLinear dr g =
     (case linearX g of
        None \<Rightarrow> None
      | Some lx \<Rightarrow>
          (let lVal = 2 * lx * maxVarianceBytes (state g) - maxVarianceBytes (state g)
           in Some (float_to_int lVal)))"

definition varianceRandom :: varianceFunc where
  "varianceRandom dr g =
     (let rSign = fst dr * (- 1);
          rPct = Copysign (snd dr) (real_of_int rSign)
      in Some (float_to_int (rPct * maxVarianceBytes (state g))))"

definition varianceSineWave :: varianceFunc where
  "varianceSineWave dr g =
     (case rad g of
        None \<Rightarrow> None
      | Some rads \<Rightarrow> Some (float_to_int (sin rads * maxVarianceBytes (state g))))"

definition varianceZero :: varianceFunc where
  "varianceZero dr g = Some 0"

definition getVarianceFuncByName :: "NodeGenerator \<Rightarrow> varianceFunc" where
  "getVarianceFuncByName g =
     (if memoryVariance g = 0 then varianceZero
      else if memoryVarianceFun g = ''linear'' then varianceLinear
      else if memoryVarianceFun g = ''random'' then varianceRandom
      else if memoryVarianceFun g = ''sine'' then varianceSineWave
      else varianceZero)"

subsection \<open>The memory loop\<close>

text \<open>
  \<^verbatim>\<open>tick\<close> moves the phase on by one. The remainder by zero panics.
\<close>

definition tick :: "NodeGenerator \<Rightarrow> panic + NodeGenerator" where
  "tick g =
     (if ticksPerPeriod (state g) = 0 then Inl IntegerDivideByZero
      else Inr (g\<lparr>state := (state g)
             \<lparr>currentTick :=
                go_rem (wrap64 (currentTick (state g) + 1)) (ticksPerPeriod (state g))\<rparr>\<rparr>))"

text \<open>
  One iteration of the loop of \<^verbatim>\<open>generateVaryingMemory\<close>: the new length is the
  current bytes plus the delta, \<^verbatim>\<open>make\<close> panics on a negative capacity, the new length
  is stored as the current bytes, and the phase ticks. The iteration returns the length
  it allocated. (A capacity above what the runtime can allocate stops the program as
  well; that bound depends on the platform and is left out.)
\<close>

definition memoryIteration ::
  "varianceFunc \<Rightarrow> draw \<Rightarrow> NodeGenerator \<Rightarrow> panic + (int \<times> NodeGenerator)" where
  "memoryIteration delta dr g =
     (case delta dr g of
        None \<Rightarrow> Inl FloatNotFinite
      | Some d \<Rightarrow>
          (let newMemLen = wrap64 (currentBytes (state g) + d)
           in if newMemLen < 0 then Inl MakesliceCapOutOfRange
              else (case tick (g\<lparr>state := (state g)\<lparr>currentBytes := newMemLen\<rparr>\<rparr>) of
                      Inl e \<Rightarrow> Inl e
                    | Inr g' \<Rightarrow> Inr (newMemLen, g'))))"

text \<open>
  The loop runs while \<^verbatim>\<open>g.running\<close> is set, which the stop handle clears from another
  goroutine. The model runs one iteration for each draw of the list it is given and
  returns the lengths allocated, in order.
\<close>

fun memoryLoop ::
  "varianceFunc \<Rightarrow> draw list \<Rightarrow> NodeGenerator \<Rightarrow> panic + (int list \<times> NodeGenerator)" where
  "memoryLoop delta [] g = Inr ([], g)"
| "memoryLoop delta (dr # drs) g =
     (case memoryIteration delta dr g of
        Inl e \<Rightarrow> Inl e
      | Inr (n, g') \<Rightarrow>
          (case memoryLoop delta drs g' of
             Inl e \<Rightarrow> Inl e
           | Inr (ns, g'') \<Rightarrow> Inr (n # ns, g'')))"

subsection \<open>The CPU loop\<close>

text \<open>
  What a goroutine does with the clock: it spins until more than the given number of
  nanoseconds have passed (\<open>BusyWait\<close>), or it sleeps for them (\<open>Sleep\<close>;
  \<^verbatim>\<open>time.Sleep\<close> returns at once for a duration that is not positive). The other
  effects are those of the request handler below.
\<close>

datatype effect =
  BusyWait int | Sleep int | StartLoad | FanOut "string list" | LogSleepService int | StopLoad

text \<open>
  The two durations are float64 values: the product and the difference are rounded
  (\<open>fl64\<close>) before they are converted.
\<close>

definition unitHundredsOfMicrosecond :: real where
  "unitHundredsOfMicrosecond = 1000"

definition runMicrosecond :: "NodeGenerator \<Rightarrow> real" where
  "runMicrosecond g = fl64 (unitHundredsOfMicrosecond * cpuPercentage g)"

definition sleepMicrosecond :: "NodeGenerator \<Rightarrow> real" where
  "sleepMicrosecond g = fl64 (fl64 (unitHundredsOfMicrosecond * 100) - runMicrosecond g)"

text \<open>
  \<^verbatim>\<open>time.Duration(runMicrosecond) * time.Microsecond\<close>: the float is cut to a whole
  number of microseconds, then scaled to nanoseconds.
\<close>

definition runDuration :: "NodeGenerator \<Rightarrow> int" where
  "runDuration g = wrap64 (float_to_int (runMicrosecond g) * Microsecond)"

definition sleepDuration :: "NodeGenerator \<Rightarrow> int" where
  "sleepDuration g = wrap64 (float_to_int (sleepMicrosecond g) * Microsecond)"

text \<open>
  One pass of the endless loop of a worker of \<^verbatim>\<open>generateCPU\<close>, and the number of
  workers. Both variants of the generator have the same \<^verbatim>\<open>generateCPU\<close>.
\<close>

definition dutyCycle :: "NodeGenerator \<Rightarrow> effect list" where
  "dutyCycle g = [BusyWait (runDuration g), Sleep (sleepDuration g)]"

definition cpuWorkers :: "NodeGenerator \<Rightarrow> nat" where
  "cpuWorkers g = nat (float_to_int (cpuCoresCount g))"

subsection \<open>Starting and stopping\<close>

text \<open>
  \<^verbatim>\<open>generateVaryingMemory\<close> and \<^verbatim>\<open>generateCPU\<close> start goroutines that end with one
  receive from \<^verbatim>\<open>g.finished\<close>. The model returns the loops each of them starts.
\<close>

datatype loop = MemoryLoop | CPULoop

definition generateVaryingMemory :: "NodeGenerator \<Rightarrow> loop list" where
  "generateVaryingMemory g = [MemoryLoop]"

definition generateCPU :: "NodeGenerator \<Rightarrow> loop list" where
  "generateCPU g = (if cpuCoresCount g = 0 then [] else [CPULoop])"

text \<open>
  The function \<^verbatim>\<open>Generate\<close> returns is a sequence of actions on the generator: two
  sends on \<^verbatim>\<open>g.finished\<close>, then the running flag is cleared.
\<close>

datatype stop_action = SendFinished | ClearRunning

definition Generate :: "NodeGenerator \<Rightarrow> NodeGenerator \<times> loop list \<times> stop_action list" where
  "Generate g =
     (let g1 = g\<lparr>finished := Some (make_chan 2)\<rparr>;
          g2 = g1\<lparr>running := True\<rparr>
      in (g2, generateVaryingMemory g2 @ generateCPU g2,
          [SendFinished, SendFinished, ClearRunning]))"

text \<open>
  One action of the stop handle. \<open>None\<close> is the caller blocked: a send on a full
  channel, or on the nil channel of a generator that was never started.
\<close>

fun stop_step :: "stop_action \<Rightarrow> NodeGenerator \<Rightarrow> NodeGenerator option" where
  "stop_step SendFinished g =
     (case finished g of
        None \<Rightarrow> None
      | Some c \<Rightarrow> map_option (\<lambda>c'. g\<lparr>finished := Some c'\<rparr>) (send c))"
| "stop_step ClearRunning g = Some (g\<lparr>running := False\<rparr>)"

text \<open>
  The loops run beside the caller: before each action of the handle, any number of them
  may have reached their receive. A receive on an empty channel takes nothing (the loop
  waits).
\<close>

fun receives :: "nat \<Rightarrow> NodeGenerator \<Rightarrow> NodeGenerator" where
  "receives 0 g = g"
| "receives (Suc k) g =
     receives k
       (case finished g of
          None \<Rightarrow> g
        | Some c \<Rightarrow> (case recv c of None \<Rightarrow> g | Some c' \<Rightarrow> g\<lparr>finished := Some c'\<rparr>))"

text \<open>
  The handle invoked under a schedule: \<open>ks\<close> lists how many receives happen before
  each of its actions (none once the list is exhausted).
\<close>

fun invoke :: "stop_action list \<Rightarrow> nat list \<Rightarrow> NodeGenerator \<Rightarrow> NodeGenerator option" where
  "invoke [] ks g = Some g"
| "invoke (a # as) ks g =
     (case stop_step a (receives (case ks of [] \<Rightarrow> 0 | k # _ \<Rightarrow> k) g) of
        None \<Rightarrow> None
      | Some g' \<Rightarrow> invoke as (tl ks) g')"

section \<open>The earlier variant of the generator\<close>

text \<open>
  \<^verbatim>\<open>src/load/node_generator.go\<close> holds an earlier variant of the same generator. Its
  variance functions return the new length to allocate, not a delta, and the sine
  function moves the tick itself. Its names carry a \<open>0\<close> here. The angle, the sine and
  the delta that its sine function computes are only logged.
\<close>

record NodeGenerator0 =
  cpuCoresCount0 :: real
  cpuPercentage0 :: real
  memoryMBytes0 :: int
  memoryVariance0 :: int
  memoryVarianceFun0 :: string
  memoryVariancePeriod0 :: int
  running0 :: bool
  currentMemory0 :: int
  currentTick0 :: int
  finished0 :: "chan option"

type_synonym varianceFunc0 = "draw \<Rightarrow> NodeGenerator0 \<Rightarrow> panic + (int \<times> NodeGenerator0)"

definition varianceLinear0 :: varianceFunc0 where
  "varianceLinear0 dr g = Inr (currentMemory0 g, g)"

definition varianceRandom0 :: varianceFunc0 where
  "varianceRandom0 dr g =
     (if memoryVariance0 g > 0 then
        (let fMemoryMBytes = real_of_int (memoryMBytes0 g);
             fMemoryBytes = fMemoryMBytes * 1048576;
             rPct = snd dr * 2 - 1;
             varyByPct = real_of_int (memoryVariance0 g) * rPct / 100;
             delta = fMemoryBytes * varyByPct;
             newValue = float_to_int (fMemoryBytes + delta)
         in Inr (newValue, g))
      else Inr (currentMemory0 g, g))"

definition varianceSineWave0 :: varianceFunc0 where
  "varianceSineWave0 dr g =
     (if memoryVariance0 g > 0 then
        (let varianceDuration = wrap64 (memoryVariancePeriod0 g * Second);
             tpp = go_quo varianceDuration TICK_INTERVAL
         in if memoryVariancePeriod0 g = 0 then Inl IntegerDivideByZero
            else if wrap64 (currentTick0 g + 1) < tpp
              then Inr (currentMemory0 g, g\<lparr>currentTick0 := wrap64 (currentTick0 g + 1)\<rparr>)
              else Inr (currentMemory0 g, g\<lparr>currentTick0 := 0\<rparr>))
      else Inr (currentMemory0 g, g))"

definition getVarianceFuncByName0 :: "string \<Rightarrow> varianceFunc0" where
  "getVarianceFuncByName0 varianceFunName =
     (if varianceFunName = ''linear'' then varianceLinear0
      else if varianceFunName = ''random'' then varianceRandom0
      else if varianceFunName = ''sine'' then varianceSineWave0
      else varianceLinear0)"

section \<open>The gRPC request handler\<close>

text \<open>
  \<^verbatim>\<open>Handle\<close> of \<^verbatim>\<open>src/handlers/request_grpc.go\<close>. What its collaborators return is
  given: \<open>er\<close> is what the error injector returns (a code and a message, or nothing),
  \<open>err\<close> the error of the worker pool's \<^verbatim>\<open>Do\<close> (consulted only when there are
  upstream URIs), \<open>d\<close> the duration \<^verbatim>\<open>f.duration.Calculate()\<close> returns and \<open>et\<close> the
  time since the request began, read after the fan-out, both in nanoseconds. The load
  generator is started first and its stop handle is deferred, so it runs on every
  return.

  On the path without error the handler sets the body of the response to the configured
  message, as it is when it starts with a brace and between double quotes otherwise,
  without escaping it, and encodes the response with \<^verbatim>\<open>ToJSON\<close>, which panics when
  \<^verbatim>\<open>json.Marshal\<close> returns an error. \<^verbatim>\<open>json.Marshal\<close> rejects a raw message that is not
  one JSON value; that check belongs to the standard library and is the parameter
  \<open>valid\<close>. On the two paths that return a status error no body is set.

  The model returns the effects in order and the reply: a gRPC status error with its
  code and message, the response with its body, or the panic of the encoder.
\<close>

definition Internal :: int where
  "Internal = 13"

datatype reply = StatusError int string | Response string | MarshalPanic

definition responseBody :: "string \<Rightarrow> string" where
  "responseBody message =
     (if take 1 message = ''{'' then message else [CHR 0x22] @ message @ [CHR 0x22])"

definition Handle ::
  "(string \<Rightarrow> bool) \<Rightarrow> string \<Rightarrow> string list \<Rightarrow> (int \<times> string) option \<Rightarrow> string option \<Rightarrow>
   int \<Rightarrow> int \<Rightarrow> effect list \<times> reply" where
  "Handle valid message upstreamURIs er err d et =
     (case er of
        Some (code, msg) \<Rightarrow> ([StartLoad, StopLoad], StatusError code msg)
      | None \<Rightarrow>
          (let fan = (if length upstreamURIs > 0 then [FanOut upstreamURIs] else []);
               upstreamError = (if length upstreamURIs > 0 then err else None);
               rd = wrap64 (d - et)
           in case upstreamError of
                Some e \<Rightarrow> ([StartLoad] @ fan @ [StopLoad], StatusError Internal e)
              | None \<Rightarrow>
                  ([StartLoad] @ fan @ [LogSleepService rd]
                     @ (if rd > 0 then [Sleep rd] else []) @ [StopLoad],
                   if valid (responseBody message) then Response (responseBody message)
                   else MarshalPanic)))"

text \<open>The durations the handling goroutine sleeps for, in order.\<close>

fun sleeps :: "effect list \<Rightarrow> int list" where
  "sleeps [] = []"
| "sleeps (Sleep n # es) = n # sleeps es"
| "sleeps (e # es) = sleeps es"

section \<open>Arithmetic of the runtime\<close>

lemma wrap64_id: "int64 i \<Longrightarrow> wrap64 i = i"
  by (simp add: int64_def wrap64_def)

lemma go_quo_nonneg: "0 \<le> a \<Longrightarrow> 0 < b \<Longrightarrow> go_quo a b = a div b"
  by (cases "a = 0") (simp_all add: go_quo_def)

lemma go_rem_nonneg: "0 \<le> a \<Longrightarrow> 0 < b \<Longrightarrow> go_rem a b = a mod b"
  by (simp add: go_rem_def go_quo_nonneg minus_mult_div_eq_mod)

lemma float_to_int_abs_le: "\<bar>real_of_int (float_to_int f)\<bar> \<le> \<bar>f\<bar>"
proof -
  define i where "i = (if 0 \<le> f then \<lfloor>f\<rfloor> else \<lceil>f\<rceil>)"
  have i: "\<bar>real_of_int i\<bar> \<le> \<bar>f\<bar>" by (simp add: i_def)
  show ?thesis
  proof (cases "int64 i")
    case True
    then show ?thesis using i by (simp add: float_to_int_def i_def)
  next
    case False
    then have "2 ^ 63 \<le> \<bar>i\<bar>" unfolding int64_def by linarith
    then have "2 ^ 63 \<le> \<bar>real_of_int i\<bar>"
      by (metis of_int_abs of_int_le_iff of_int_numeral of_int_power)
    with i have "2 ^ 63 \<le> \<bar>f\<bar>" by linarith
    with False show ?thesis by (simp add: float_to_int_def i_def)
  qed
qed

lemma float_to_int_of_int: "int64 i \<Longrightarrow> float_to_int (real_of_int i) = i"
  by (simp add: float_to_int_def)

lemma round_half_even_of_int: "round_half_even (real_of_int n) = n"
  by (simp add: round_half_even_def)

text \<open>The rounding keeps every integer below \<open>2 ^ 53\<close> in magnitude.\<close>

lemma fl64_of_int:
  assumes "\<bar>k\<bar> < 2 ^ 53"
  shows "fl64 (real_of_int k) = real_of_int k"
proof (cases "k = 0")
  case True
  then show ?thesis by (simp add: fl64_def)
next
  case False
  define a where "a = \<bar>k\<bar>"
  have a: "0 < a" "a < 2 ^ 53" using False assms by (simp_all add: a_def)
  define e where "e = bitlen a - 1"
  have "1 \<le> \<bar>real_of_int k\<bar>" using a by (simp add: a_def flip: of_int_abs)
  moreover have "\<lfloor>\<bar>real_of_int k\<bar>\<rfloor> = a" by (simp add: a_def flip: of_int_abs)
  ultimately have ex: "exponent64 (real_of_int k) = e"
    by (simp only: exponent64_def e_def if_True)
  from a(1) have e0: "0 \<le> e" by (simp add: e_def bitlen_alt_def)
  have "bitlen a \<le> 53" using a by (simp add: bitlen_le_iff_power)
  then have e52: "e \<le> 52" by (simp add: e_def)
  define n where "n = nat (52 - e)"
  have q: "pow2 (max e (- 1022) - 52) = 1 / 2 ^ n"
    using e0 e52 by (cases "e = 52") (simp_all add: pow2_def n_def max_def)
  have "real_of_int k / (1 / 2 ^ n) = real_of_int (k * 2 ^ n)" by simp
  then have "round_half_even (real_of_int k / (1 / 2 ^ n)) = k * 2 ^ n"
    by (simp only: round_half_even_of_int)
  then show ?thesis
    using False by (simp add: fl64_def ex q Let_def)
qed

lemma fl64_Ints: "r \<in> \<int> \<Longrightarrow> \<bar>r\<bar> < 2 ^ 53 \<Longrightarrow> fl64 r = r"
  by (auto elim!: Ints_cases simp: fl64_of_int simp flip: of_int_abs)

section \<open>Variance model selection\<close>

text \<open>
  C3. For every phase state and every draw, the variance function selected for a
  configuration whose variance percentage is 0, or whose model name is none of
  "linear", "random" and "sine" (the empty name included), returns the delta 0.
  The function is selected once from the configuration \<open>g\<close> and then applied to
  the generator in whatever state \<open>g'\<close> it has reached.
\<close>

theorem getVarianceFuncByName_zero:
  "memoryVariance g = 0 \<or> memoryVarianceFun g \<notin> {''linear'', ''random'', ''sine''} \<Longrightarrow>
   getVarianceFuncByName g dr g' = Some 0"
  by (auto simp: getVarianceFuncByName_def varianceZero_def)

theorem getVarianceFuncByName_zero_witness:
  "(memoryVariance (NewNodeGenerator 2 50 100 0 ''sine'' 4) = 0 \<or>
    memoryVarianceFun (NewNodeGenerator 2 50 100 0 ''sine'' 4)
      \<notin> {''linear'', ''random'', ''sine''}) \<and>
   (memoryVariance (NewNodeGenerator 2 50 100 10 [] 4) = 0 \<or>
    memoryVarianceFun (NewNodeGenerator 2 50 100 10 [] 4)
      \<notin> {''linear'', ''random'', ''sine''}) \<and>
   getVarianceFuncByName (NewNodeGenerator 2 50 100 0 ''sine'' 4) (1, 1 / 2)
     (NewNodeGenerator 2 50 100 0 ''sine'' 4) = Some 0 \<and>
   getVarianceFuncByName (NewNodeGenerator 2 50 100 10 [] 4) (1, 1 / 2)
     (NewNodeGenerator 2 50 100 10 [] 4) = Some 0"
proof -
  have a: "memoryVariance (NewNodeGenerator 2 50 100 0 ''sine'' 4) = 0"
    by (simp add: NewNodeGenerator_def)
  have b: "memoryVarianceFun (NewNodeGenerator 2 50 100 10 [] 4)
      \<notin> {''linear'', ''random'', ''sine''}"
    by (simp add: NewNodeGenerator_def)
  show ?thesis
    using a b getVarianceFuncByName_zero [OF disjI1 [OF a]]
      getVarianceFuncByName_zero [OF disjI2 [OF b]]
    by blast
qed

text \<open>
  In the earlier variant the selected function returns the new length itself. Under the
  same condition that length is the current memory and the generator is unchanged, so
  the allocation does not move there either.
\<close>

lemma getVarianceFuncByName0_unchanged:
  "memoryVariance0 g = 0 \<or> memoryVarianceFun0 g \<notin> {''linear'', ''random'', ''sine''} \<Longrightarrow>
   getVarianceFuncByName0 (memoryVarianceFun0 g) dr g = Inr (currentMemory0 g, g)"
  by (auto simp: getVarianceFuncByName0_def varianceLinear0_def varianceRandom0_def
      varianceSineWave0_def)

section \<open>The linear model\<close>

text \<open>
  C4, as amended. With at least two ticks per period, the tick inside the period and
  \<^verbatim>\<open>maxVarianceBytes\<close> below \<open>2 ^ 63\<close> in magnitude (so that the delta fits an
  \<^verbatim>\<open>int\<close>), the linear delta is never larger in magnitude than \<^verbatim>\<open>maxVarianceBytes\<close>.
  At tick 0 it is \<^verbatim>\<open>-maxVarianceBytes\<close> cut to an integer towards zero, at the last
  tick of the period it is \<^verbatim>\<open>maxVarianceBytes\<close> cut to an integer towards zero; the two
  extremes are \<^verbatim>\<open>-maxVarianceBytes\<close> and \<^verbatim>\<open>+maxVarianceBytes\<close> exactly when
  \<^verbatim>\<open>maxVarianceBytes\<close> is a whole number.
\<close>

theorem varianceLinear_range:
  assumes "2 \<le> ticksPerPeriod (state g)" and "int64 (ticksPerPeriod (state g))"
    and "0 \<le> currentTick (state g)" and "currentTick (state g) < ticksPerPeriod (state g)"
    and "\<bar>maxVarianceBytes (state g)\<bar> < 2 ^ 63"
  shows "\<exists>d. varianceLinear dr g = Some d \<and> int64 d \<and>
           \<bar>real_of_int d\<bar> \<le> \<bar>maxVarianceBytes (state g)\<bar> \<and>
           (currentTick (state g) = 0 \<longrightarrow>
              d = (if 0 \<le> maxVarianceBytes (state g) then - \<lfloor>maxVarianceBytes (state g)\<rfloor>
                   else - \<lceil>maxVarianceBytes (state g)\<rceil>)) \<and>
           (currentTick (state g) = ticksPerPeriod (state g) - 1 \<longrightarrow>
              d = (if 0 \<le> maxVarianceBytes (state g) then \<lfloor>maxVarianceBytes (state g)\<rfloor>
                   else \<lceil>maxVarianceBytes (state g)\<rceil>)) \<and>
           (maxVarianceBytes (state g) \<in> \<int> \<longrightarrow>
              (currentTick (state g) = 0 \<longrightarrow> real_of_int d = - maxVarianceBytes (state g)) \<and>
              (currentTick (state g) = ticksPerPeriod (state g) - 1 \<longrightarrow>
                 real_of_int d = maxVarianceBytes (state g)))"
proof -
  let ?t = "currentTick (state g)" and ?n = "ticksPerPeriod (state g)"
  let ?m = "maxVarianceBytes (state g)"
  let ?x = "real_of_int ?t / real_of_int (?n - 1)"
  let ?l = "2 * ?x * ?m - ?m"
  have "int64 (?n - 1)" using assms(1,2) by (simp add: int64_def)
  then have w: "wrap64 (?n - 1) = ?n - 1" by (rule wrap64_id)
  have n1: "0 < real_of_int (?n - 1)" using assms(1) by simp
  then have lx: "linearX g = Some ?x"
    using w assms(1) by (simp add: linearX_def Let_def)
  define d where "d = float_to_int ?l"
  from lx have v: "varianceLinear dr g = Some d"
    by (simp add: varianceLinear_def Let_def d_def)
  have x0: "0 \<le> ?x" using assms(3) n1 by simp
  have x1: "?x \<le> 1" using assms(4) n1 by simp
  have "?l = (2 * ?x - 1) * ?m" by (simp add: algebra_simps)
  moreover have "\<bar>2 * ?x - 1\<bar> \<le> 1" using x0 x1 by (simp add: abs_le_iff)
  ultimately have "\<bar>?l\<bar> \<le> \<bar>?m\<bar>"
    by (metis abs_mult abs_ge_zero mult_left_le_one_le)
  with float_to_int_abs_le [of ?l] have bound: "\<bar>real_of_int d\<bar> \<le> \<bar>?m\<bar>"
    unfolding d_def by linarith
  from bound assms(5) have "\<bar>real_of_int d\<bar> < 2 ^ 63" by linarith
  then have "\<bar>d\<bar> < 2 ^ 63"
    by (metis of_int_abs of_int_less_iff of_int_numeral of_int_power)
  then have fits: "int64 d" unfolding int64_def by linarith
  have cut: "float_to_int r = (if 0 \<le> r then \<lfloor>r\<rfloor> else \<lceil>r\<rceil>)" if "\<bar>r\<bar> < 2 ^ 63" for r
  proof -
    define i where "i = (if 0 \<le> r then \<lfloor>r\<rfloor> else \<lceil>r\<rceil>)"
    have "\<bar>real_of_int i\<bar> \<le> \<bar>r\<bar>" by (simp add: i_def)
    with that have "\<bar>real_of_int i\<bar> < 2 ^ 63" by linarith
    then have "\<bar>i\<bar> < 2 ^ 63"
      by (metis of_int_abs of_int_less_iff of_int_numeral of_int_power)
    then have "int64 i" unfolding int64_def by linarith
    then show ?thesis by (simp add: float_to_int_def i_def)
  qed
  have neg: "float_to_int (- ?m) = (if 0 \<le> ?m then - \<lfloor>?m\<rfloor> else - \<lceil>?m\<rceil>)"
    using cut [of "- ?m"] assms(5) by (auto simp: ceiling_minus floor_minus)
  have pos: "float_to_int ?m = (if 0 \<le> ?m then \<lfloor>?m\<rfloor> else \<lceil>?m\<rceil>)"
    using cut [of ?m] assms(5) by simp
  have first: "d = (if 0 \<le> ?m then - \<lfloor>?m\<rfloor> else - \<lceil>?m\<rceil>)" if "?t = 0"
    using that neg by (simp add: d_def)
  have last: "d = (if 0 \<le> ?m then \<lfloor>?m\<rfloor> else \<lceil>?m\<rceil>)" if "?t = ?n - 1"
    using that n1 pos by (simp add: d_def)
  have whole: "real_of_int (if 0 \<le> ?m then \<lfloor>?m\<rfloor> else \<lceil>?m\<rceil>) = ?m" if "?m \<in> \<int>"
    using that by (auto elim: Ints_cases)
  show ?thesis
  proof (intro exI [of _ d] conjI impI)
    show "varianceLinear dr g = Some d" by (rule v)
    show "int64 d" by (rule fits)
    show "\<bar>real_of_int d\<bar> \<le> \<bar>?m\<bar>" by (rule bound)
    show "d = (if 0 \<le> ?m then - \<lfloor>?m\<rfloor> else - \<lceil>?m\<rceil>)" if "?t = 0"
      using that by (rule first)
    show "d = (if 0 \<le> ?m then \<lfloor>?m\<rfloor> else \<lceil>?m\<rceil>)" if "?t = ?n - 1"
      using that by (rule last)
    show "real_of_int d = - ?m" if "?m \<in> \<int>" "?t = 0"
      using first [OF that(2)] whole [OF that(1)] by (auto split: if_splits)
    show "real_of_int d = ?m" if "?m \<in> \<int>" "?t = ?n - 1"
      using last [OF that(2)] whole [OF that(1)] by simp
  qed
qed

text \<open>
  A generator of 100 MiB with 50 percent of variance over two seconds: four ticks, a
  whole \<^verbatim>\<open>maxVarianceBytes\<close> of 52428800, and the delta \<open>-52428800\<close> at tick 0.
\<close>

theorem varianceLinear_range_witness:
  "2 \<le> ticksPerPeriod (state (NewNodeGenerator 1 50 100 50 ''linear'' 2)) \<and>
   int64 (ticksPerPeriod (state (NewNodeGenerator 1 50 100 50 ''linear'' 2))) \<and>
   currentTick (state (NewNodeGenerator 1 50 100 50 ''linear'' 2)) = 0 \<and>
   maxVarianceBytes (state (NewNodeGenerator 1 50 100 50 ''linear'' 2)) = 52428800 \<and>
   \<bar>maxVarianceBytes (state (NewNodeGenerator 1 50 100 50 ''linear'' 2))\<bar> < 2 ^ 63 \<and>
   varianceLinear (0, 0) (NewNodeGenerator 1 50 100 50 ''linear'' 2) = Some (- 52428800)"
proof -
  let ?g = "NewNodeGenerator 1 50 100 50 ''linear'' 2"
  have n: "ticksPerPeriod (state ?g) = 4"
    by (simp add: NewNodeGenerator_def wrap64_def go_quo_def Second_def TICK_INTERVAL_def
        Millisecond_def)
  have t: "currentTick (state ?g) = 0" by (simp add: NewNodeGenerator_def)
  have m: "maxVarianceBytes (state ?g) = 52428800"
    by (simp add: NewNodeGenerator_def wrap64_def)
  have h: "2 \<le> ticksPerPeriod (state ?g)" "int64 (ticksPerPeriod (state ?g))"
    "0 \<le> currentTick (state ?g)" "currentTick (state ?g) < ticksPerPeriod (state ?g)"
    "\<bar>maxVarianceBytes (state ?g)\<bar> < 2 ^ 63"
    using n t m by (simp_all add: int64_def)
  from varianceLinear_range [OF h, of "(0, 0)"] t m
  have "varianceLinear (0, 0) ?g = Some (- \<lfloor>52428800 :: real\<rfloor>)" by auto
  then show ?thesis using h t m by simp
qed

text \<open>
  The claim as stated asks for \<^verbatim>\<open>-maxVarianceBytes\<close> exactly at tick 0. A generator of
  1 MiB with 1 percent of variance has a \<^verbatim>\<open>maxVarianceBytes\<close> of 10485.76, and its delta
  at tick 0 is \<open>-10485\<close>.
\<close>

theorem varianceLinear_exact_counterexample:
  "currentTick (state (NewNodeGenerator 1 50 1 1 ''linear'' 1)) = 0 \<and>
   ticksPerPeriod (state (NewNodeGenerator 1 50 1 1 ''linear'' 1)) = 2 \<and>
   maxVarianceBytes (state (NewNodeGenerator 1 50 1 1 ''linear'' 1)) = 262144 / 25 \<and>
   varianceLinear (0, 0) (NewNodeGenerator 1 50 1 1 ''linear'' 1) = Some (- 10485) \<and>
   real_of_int (- 10485) \<noteq> - maxVarianceBytes (state (NewNodeGenerator 1 50 1 1 ''linear'' 1))"
  by (simp add: NewNodeGenerator_def varianceLinear_def linearX_def wrap64_def go_quo_def
      Second_def TICK_INTERVAL_def Millisecond_def float_to_int_def int64_def Let_def)

section \<open>The random model\<close>

text \<open>
  C9, as amended. When \<^verbatim>\<open>maxVarianceBytes\<close> is positive, for every value the draw can
  take the random delta lies strictly between \<^verbatim>\<open>-maxVarianceBytes\<close> and
  \<^verbatim>\<open>+maxVarianceBytes\<close>.
\<close>

theorem varianceRandom_strictly_within:
  assumes "valid_draw dr" and "0 < maxVarianceBytes (state g)"
  shows "\<exists>d. varianceRandom dr g = Some d \<and>
           - maxVarianceBytes (state g) < real_of_int d \<and>
           real_of_int d < maxVarianceBytes (state g)"
proof -
  let ?m = "maxVarianceBytes (state g)"
  let ?r = "Copysign (snd dr) (real_of_int (fst dr * (- 1)))"
  from assms(1) have "\<bar>?r\<bar> < 1"
    by (auto simp: valid_draw_def Copysign_def)
  with assms(2) have "\<bar>?r * ?m\<bar> < ?m"
    by (simp add: abs_mult)
  moreover have "\<bar>real_of_int (float_to_int (?r * ?m))\<bar> \<le> \<bar>?r * ?m\<bar>"
    by (rule float_to_int_abs_le)
  ultimately have "\<bar>real_of_int (float_to_int (?r * ?m))\<bar> < ?m" by linarith
  then show ?thesis
    by (simp add: varianceRandom_def Let_def abs_less_iff)
qed

theorem varianceRandom_strictly_within_witness:
  "valid_draw (1, 1 / 2) \<and>
   0 < maxVarianceBytes (state (NewNodeGenerator 1 50 100 10 ''random'' 1)) \<and>
   (\<exists>d. varianceRandom (1, 1 / 2) (NewNodeGenerator 1 50 100 10 ''random'' 1) = Some d \<and>
      - maxVarianceBytes (state (NewNodeGenerator 1 50 100 10 ''random'' 1)) < real_of_int d \<and>
      real_of_int d < maxVarianceBytes (state (NewNodeGenerator 1 50 100 10 ''random'' 1))) \<and>
   varianceRandom (1, 1 / 2) (NewNodeGenerator 1 50 100 10 ''random'' 1) = Some (- 5242880)"
proof -
  let ?g = "NewNodeGenerator 1 50 100 10 ''random'' 1"
  have a: "valid_draw (1, 1 / 2)" by (simp add: valid_draw_def)
  have b: "0 < maxVarianceBytes (state ?g)" by (simp add: NewNodeGenerator_def wrap64_def)
  have c: "varianceRandom (1, 1 / 2) ?g = Some (- 5242880)"
    by (simp add: varianceRandom_def NewNodeGenerator_def wrap64_def Copysign_def
        float_to_int_def int64_def Let_def)
  show ?thesis using a b c varianceRandom_strictly_within [OF a b] by simp
qed

text \<open>
  The claim as stated has no condition on \<^verbatim>\<open>maxVarianceBytes\<close>. With no baseline memory
  and 10 percent of variance the random model is selected, \<^verbatim>\<open>maxVarianceBytes\<close> is 0 and
  the delta is 0, which is not above \<^verbatim>\<open>-maxVarianceBytes\<close>.
\<close>

theorem varianceRandom_zero_counterexample:
  "valid_draw (0, 1 / 2) \<and>
   memoryVariance (NewNodeGenerator 1 50 0 10 ''random'' 1) \<noteq> 0 \<and>
   getVarianceFuncByName (NewNodeGenerator 1 50 0 10 ''random'' 1) (0, 1 / 2)
     (NewNodeGenerator 1 50 0 10 ''random'' 1) = Some 0 \<and>
   varianceRandom (0, 1 / 2) (NewNodeGenerator 1 50 0 10 ''random'' 1) = Some 0 \<and>
   real_of_int 0 \<le> - maxVarianceBytes (state (NewNodeGenerator 1 50 0 10 ''random'' 1))"
  by (simp add: valid_draw_def NewNodeGenerator_def getVarianceFuncByName_def
      varianceRandom_def float_to_int_def int64_def wrap64_def)

section \<open>The phase invariant\<close>

lemma NewNodeGenerator_ticksPerPeriod:
  assumes "1 \<le> p" and "p \<le> 9223372036"
  shows "ticksPerPeriod (state (NewNodeGenerator c pc m v f p)) = 2 * p"
proof -
  have "int64 (p * Second)" using assms by (simp add: int64_def Second_def)
  then have "wrap64 (p * Second) = p * Second" by (rule wrap64_id)
  moreover have "go_quo (p * Second) TICK_INTERVAL = (p * Second) div TICK_INTERVAL"
    using assms
    by (intro go_quo_nonneg) (simp_all add: Second_def TICK_INTERVAL_def Millisecond_def)
  moreover have "(p * Second) div TICK_INTERVAL = 2 * p"
    by (simp add: Second_def TICK_INTERVAL_def Millisecond_def)
  ultimately show ?thesis by (simp add: NewNodeGenerator_def)
qed

lemma tick_phase:
  assumes "phaseInv (state g)" and "int64 (ticksPerPeriod (state g))"
  shows "tick g = Inr (g\<lparr>state := (state g)
           \<lparr>currentTick := (currentTick (state g) + 1) mod ticksPerPeriod (state g)\<rparr>\<rparr>)"
proof -
  let ?t = "currentTick (state g)" and ?n = "ticksPerPeriod (state g)"
  from assms have t: "0 \<le> ?t" "?t < ?n" "?n < 2 ^ 63"
    by (simp_all add: phaseInv_def int64_def)
  then have "int64 (?t + 1)" by (simp add: int64_def)
  then have "wrap64 (?t + 1) = ?t + 1" by (rule wrap64_id)
  moreover have "go_rem (?t + 1) ?n = (?t + 1) mod ?n"
    using t by (intro go_rem_nonneg) simp_all
  ultimately show ?thesis using t by (simp add: tick_def)
qed

lemma memoryIteration_phase:
  assumes "memoryIteration delta dr g = Inr (n, g')"
    and "phaseInv (state g)" and "int64 (ticksPerPeriod (state g))"
  shows "ticksPerPeriod (state g') = ticksPerPeriod (state g) \<and>
         currentTick (state g') = (currentTick (state g) + 1) mod ticksPerPeriod (state g) \<and>
         phaseInv (state g')"
proof -
  from assms(1) obtain d where d: "delta dr g = Some d"
    by (auto simp: memoryIteration_def split: option.splits)
  let ?g1 = "g\<lparr>state := (state g)\<lparr>currentBytes := wrap64 (currentBytes (state g) + d)\<rparr>\<rparr>"
  have inv1: "phaseInv (state ?g1)" "int64 (ticksPerPeriod (state ?g1))"
    using assms(2,3) by (simp_all add: phaseInv_def)
  from assms(1) d have "tick ?g1 = Inr g'"
    by (auto simp: memoryIteration_def Let_def split: if_splits sum.splits)
  with tick_phase [OF inv1] have
    "g' = ?g1\<lparr>state := (state ?g1)
        \<lparr>currentTick := (currentTick (state ?g1) + 1) mod ticksPerPeriod (state ?g1)\<rparr>\<rparr>"
    by simp
  then have "ticksPerPeriod (state g') = ticksPerPeriod (state g)"
    and "currentTick (state g') = (currentTick (state g) + 1) mod ticksPerPeriod (state g)"
    by simp_all
  moreover from assms(2) have "0 < ticksPerPeriod (state g)" by (simp add: phaseInv_def)
  ultimately show ?thesis by (simp add: phaseInv_def)
qed

lemma memoryLoop_phase:
  assumes "memoryLoop delta drs g = Inr (ns, g')"
    and "phaseInv (state g)" and "int64 (ticksPerPeriod (state g))"
  shows "ticksPerPeriod (state g') = ticksPerPeriod (state g) \<and>
         currentTick (state g')
           = (currentTick (state g) + int (length drs)) mod ticksPerPeriod (state g) \<and>
         phaseInv (state g')"
  using assms
proof (induction drs arbitrary: g ns)
  case Nil
  then show ?case by (simp add: phaseInv_def)
next
  case (Cons dr drs)
  from Cons.prems(1) obtain n g1 ns1 where
    it: "memoryIteration delta dr g = Inr (n, g1)" and
    rest: "memoryLoop delta drs g1 = Inr (ns1, g')"
    by (auto split: sum.splits prod.splits)
  note p1 = memoryIteration_phase [OF it Cons.prems(2,3)]
  then have "int64 (ticksPerPeriod (state g1))" using Cons.prems(3) by simp
  from Cons.IH [OF rest _ this] p1 have
    "ticksPerPeriod (state g') = ticksPerPeriod (state g)"
    "currentTick (state g') = ((currentTick (state g) + 1) mod ticksPerPeriod (state g)
       + int (length drs)) mod ticksPerPeriod (state g)"
    "phaseInv (state g')"
    by simp_all
  moreover have "((currentTick (state g) + 1) mod ticksPerPeriod (state g)
       + int (length drs)) mod ticksPerPeriod (state g)
     = (currentTick (state g) + int (length (dr # drs))) mod ticksPerPeriod (state g)"
    by (simp add: mod_add_left_eq add.assoc)
  ultimately show ?case by simp
qed

text \<open>
  A positive period keeps the phase in order. For a generator constructed with a
  variance period of at least one second (and at most 9223372036 seconds, beyond which
  the period in nanoseconds overflows), \<^verbatim>\<open>ticksPerPeriod\<close> is twice the period, so at
  least 2, and the current tick starts inside \<open>[0, ticksPerPeriod)\<close>. After any number
  of iterations of the memory loop the tick is still inside the period and equals the
  number of iterations modulo \<^verbatim>\<open>ticksPerPeriod\<close>, and the next \<^verbatim>\<open>tick\<close> does not panic
  and moves it on by one, modulo \<^verbatim>\<open>ticksPerPeriod\<close>.
\<close>

lemma positive_period_phase_invariant:
  assumes "1 \<le> p" and "p \<le> 9223372036"
  shows "2 \<le> ticksPerPeriod (state (NewNodeGenerator c pc m v f p)) \<and>
         ticksPerPeriod (state (NewNodeGenerator c pc m v f p)) = 2 * p \<and>
         phaseInv (state (NewNodeGenerator c pc m v f p)) \<and>
         (\<forall>delta drs ns g'.
            memoryLoop delta drs (NewNodeGenerator c pc m v f p) = Inr (ns, g') \<longrightarrow>
              ticksPerPeriod (state g') = 2 * p \<and>
              currentTick (state g') = int (length drs) mod (2 * p) \<and>
              phaseInv (state g') \<and>
              (\<exists>g''. tick g' = Inr g'' \<and>
                 currentTick (state g'') = (currentTick (state g') + 1) mod (2 * p) \<and>
                 phaseInv (state g'')))"
proof -
  let ?g = "NewNodeGenerator c pc m v f p"
  have n: "ticksPerPeriod (state ?g) = 2 * p"
    using assms by (rule NewNodeGenerator_ticksPerPeriod)
  have t: "currentTick (state ?g) = 0" by (simp add: NewNodeGenerator_def)
  have inv: "phaseInv (state ?g)" using n t assms by (simp add: phaseInv_def)
  have i64: "int64 (ticksPerPeriod (state ?g))" using n assms by (simp add: int64_def)
  have "ticksPerPeriod (state g') = 2 * p \<and>
        currentTick (state g') = int (length drs) mod (2 * p) \<and> phaseInv (state g') \<and>
        (\<exists>g''. tick g' = Inr g'' \<and>
           currentTick (state g'') = (currentTick (state g') + 1) mod (2 * p) \<and>
           phaseInv (state g''))"
    if run: "memoryLoop delta drs ?g = Inr (ns, g')" for delta drs ns g'
  proof -
    from memoryLoop_phase [OF run inv i64] n t have
      a: "ticksPerPeriod (state g') = 2 * p"
      and b: "currentTick (state g') = int (length drs) mod (2 * p)"
      and c: "phaseInv (state g')"
      by simp_all
    from a i64 n have "int64 (ticksPerPeriod (state g'))" by simp
    from tick_phase [OF c this] a assms(1) have
      "\<exists>g''. tick g' = Inr g'' \<and>
         currentTick (state g'') = (currentTick (state g') + 1) mod (2 * p) \<and>
         phaseInv (state g'')"
      by (simp add: phaseInv_def)
    with a b c show ?thesis by blast
  qed
  then have loop: "\<forall>delta drs ns g'.
      memoryLoop delta drs ?g = Inr (ns, g') \<longrightarrow>
        ticksPerPeriod (state g') = 2 * p \<and>
        currentTick (state g') = int (length drs) mod (2 * p) \<and>
        phaseInv (state g') \<and>
        (\<exists>g''. tick g' = Inr g'' \<and>
           currentTick (state g'') = (currentTick (state g') + 1) mod (2 * p) \<and>
           phaseInv (state g''))"
    by blast
  have two: "2 \<le> ticksPerPeriod (state ?g)" using n assms by simp
  from two n inv loop show ?thesis by blast
qed

text \<open>
  A period of two seconds gives four ticks; five iterations without variance leave the
  tick at 1.
\<close>

lemma positive_period_phase_invariant_example:
  "ticksPerPeriod (state (NewNodeGenerator 2 50 100 0 [] 2)) = 4 \<and>
   phaseInv (state (NewNodeGenerator 2 50 100 0 [] 2)) \<and>
   (\<exists>ns g'. memoryLoop varianceZero [(0, 0), (0, 0), (0, 0), (0, 0), (0, 0)]
        (NewNodeGenerator 2 50 100 0 [] 2) = Inr (ns, g') \<and>
      currentTick (state g') = 1 \<and> phaseInv (state g'))"
proof -
  let ?g = "NewNodeGenerator 2 50 100 0 [] 2"
  let ?drs = "[(0, 0), (0, 0), (0, 0), (0, 0), (0, 0)] :: draw list"
  have "\<exists>ns g'. memoryLoop varianceZero ?drs ?g = Inr (ns, g')"
    by (simp add: NewNodeGenerator_def varianceZero_def memoryIteration_def tick_def
        wrap64_def go_quo_def go_rem_def Second_def TICK_INTERVAL_def Millisecond_def Let_def)
  then obtain ns g' where run: "memoryLoop varianceZero ?drs ?g = Inr (ns, g')" by blast
  have h: "(1::int) \<le> 2" "(2::int) \<le> 9223372036" by simp_all
  note inst = positive_period_phase_invariant [OF h, of 2 50 100 0 "[]"]
  from inst have a: "ticksPerPeriod (state ?g) = 2 * 2" and b: "phaseInv (state ?g)"
    by blast+
  from inst run have c: "currentTick (state g') = int (length ?drs) mod (2 * 2)"
    and d: "phaseInv (state g')"
    by blast+
  from c have "currentTick (state g') = 1" by simp
  with a b d run show ?thesis by auto
qed

text \<open>
  C6. The code does not keep \<^verbatim>\<open>ticksPerPeriod\<close> at 2 or more, nor the tick inside the
  period, for every generator. A generator constructed with a variance period of 0
  (here with variance disabled) has a \<^verbatim>\<open>ticksPerPeriod\<close> of 0, so its current tick, 0,
  is outside \<open>[0, ticksPerPeriod)\<close> from the start, against the comment on
  \<^verbatim>\<open>currentTick\<close>; \<^verbatim>\<open>tick\<close> then takes a remainder by zero, and the first iteration of
  the memory loop panics.
\<close>

theorem zero_period_breaks_phase:
  "ticksPerPeriod (state (NewNodeGenerator 2 50 100 0 ''linear'' 0)) = 0 \<and>
   ticksPerPeriod (state (NewNodeGenerator 2 50 100 0 ''linear'' 0)) < 2 \<and>
   currentTick (state (NewNodeGenerator 2 50 100 0 ''linear'' 0)) = 0 \<and>
   \<not> phaseInv (state (NewNodeGenerator 2 50 100 0 ''linear'' 0)) \<and>
   tick (NewNodeGenerator 2 50 100 0 ''linear'' 0) = Inl IntegerDivideByZero \<and>
   memoryLoop (getVarianceFuncByName (NewNodeGenerator 2 50 100 0 ''linear'' 0)) [(0, 0)]
     (NewNodeGenerator 2 50 100 0 ''linear'' 0) = Inl IntegerDivideByZero"
  by (simp add: NewNodeGenerator_def phaseInv_def wrap64_def go_quo_def tick_def
      getVarianceFuncByName_def varianceZero_def memoryIteration_def Let_def)

section \<open>The allocation target of the memory loop\<close>

text \<open>
  An iteration that does not panic allocates the bytes of the previous iteration plus
  the delta, and stores that length for the next one.
\<close>

lemma memoryIteration_accumulates:
  assumes "memoryIteration delta dr g = Inr (n, g')"
  shows "\<exists>d. delta dr g = Some d \<and> n = wrap64 (currentBytes (state g) + d) \<and>
           currentBytes (state g') = n \<and> baselineBytes (state g') = baselineBytes (state g)"
  using assms
  by (auto simp: memoryIteration_def tick_def Let_def split: option.splits if_splits)

text \<open>
  C1. The code does not compute the baseline plus the delta. A generator of 100 MiB
  with 50 percent of linear variance over one second has two ticks, with the deltas
  \<open>-52428800\<close> and \<open>+52428800\<close>. Its loop allocates 52428800 bytes and then 104857600
  (the bytes of the first iteration plus the second delta), where the baseline plus the
  second delta is 157286400. With 100 MiB, 10 percent and a period of 60 seconds the
  deltas carried over drive the length below zero: ten iterations pass and the eleventh
  asks \<^verbatim>\<open>make\<close> for a negative capacity.
\<close>

theorem memoryLoop_carries_deltas:
  "baselineBytes (state (NewNodeGenerator 1 50 100 50 ''linear'' 1)) = 104857600 \<and>
   getVarianceFuncByName (NewNodeGenerator 1 50 100 50 ''linear'' 1) (0, 0)
     (NewNodeGenerator 1 50 100 50 ''linear'' 1) = Some (- 52428800) \<and>
   map_sum id fst
     (memoryLoop (getVarianceFuncByName (NewNodeGenerator 1 50 100 50 ''linear'' 1))
        [(0, 0)] (NewNodeGenerator 1 50 100 50 ''linear'' 1)) = Inr [52428800] \<and>
   map_sum id (\<lambda>r. getVarianceFuncByName (NewNodeGenerator 1 50 100 50 ''linear'' 1) (0, 0) (snd r))
     (memoryLoop (getVarianceFuncByName (NewNodeGenerator 1 50 100 50 ''linear'' 1))
        [(0, 0)] (NewNodeGenerator 1 50 100 50 ''linear'' 1)) = Inr (Some 52428800) \<and>
   map_sum id fst
     (memoryLoop (getVarianceFuncByName (NewNodeGenerator 1 50 100 50 ''linear'' 1))
        [(0, 0), (0, 0)] (NewNodeGenerator 1 50 100 50 ''linear'' 1))
     = Inr [52428800, 104857600] \<and>
   map_sum id (length \<circ> fst)
     (memoryLoop (getVarianceFuncByName (NewNodeGenerator 1 50 100 10 ''linear'' 60))
        [(0, 0), (0, 0), (0, 0), (0, 0), (0, 0), (0, 0), (0, 0), (0, 0), (0, 0), (0, 0)]
        (NewNodeGenerator 1 50 100 10 ''linear'' 60)) = Inr 10 \<and>
   memoryLoop (getVarianceFuncByName (NewNodeGenerator 1 50 100 10 ''linear'' 60))
     [(0, 0), (0, 0), (0, 0), (0, 0), (0, 0), (0, 0), (0, 0), (0, 0), (0, 0), (0, 0), (0, 0)]
     (NewNodeGenerator 1 50 100 10 ''linear'' 60) = Inl MakesliceCapOutOfRange"
  by (simp add: NewNodeGenerator_def getVarianceFuncByName_def varianceLinear_def linearX_def
      memoryIteration_def tick_def wrap64_def go_quo_def go_rem_def float_to_int_def int64_def
      Second_def TICK_INTERVAL_def Millisecond_def Let_def)

section \<open>The CPU duty cycle\<close>

lemma int64_microseconds: "0 \<le> k \<Longrightarrow> k \<le> 100000 \<Longrightarrow> int64 (k * 1000)"
  by (simp add: int64_def)

lemma float_to_int_microseconds:
  "0 \<le> k \<Longrightarrow> k \<le> 100000 \<Longrightarrow> float_to_int (real_of_int k) = k"
  by (rule float_to_int_of_int) (simp add: int64_def)

text \<open>
  C5, as amended. The configured value is a percentage: for a CPU percentage \<open>p\<close>
  between 0 and 100 for which \<open>1000 p\<close> is a whole number of microseconds, a worker
  spins for the run duration and then sleeps for the sleep duration in every cycle,
  where the run duration is 100 ms times \<open>p / 100\<close> and the sleep duration is 100 ms
  minus the run duration.
\<close>

theorem dutyCycle_percentage:
  assumes "0 \<le> cpuPercentage g" and "cpuPercentage g \<le> 100"
    and "1000 * cpuPercentage g \<in> \<int>"
  shows "dutyCycle g = [BusyWait (runDuration g), Sleep (sleepDuration g)] \<and>
         real_of_int (runDuration g) = real_of_int (100 * Millisecond) * (cpuPercentage g / 100) \<and>
         sleepDuration g = 100 * Millisecond - runDuration g"
proof -
  let ?p = "cpuPercentage g"
  from assms(3) obtain k :: int where k: "1000 * ?p = real_of_int k"
    by (auto elim: Ints_cases)
  have k0: "0 \<le> k" "k \<le> 100000"
    using assms(1,2) k by linarith+
  then have "\<bar>k\<bar> < 2 ^ 53" "\<bar>100000 - k\<bar> < 2 ^ 53" by simp_all
  then have flk: "fl64 (real_of_int k) = real_of_int k"
    and fls: "fl64 (real_of_int (100000 - k)) = real_of_int (100000 - k)"
    by (simp_all only: fl64_of_int)
  have unit: "fl64 100000 = 100000" by (simp add: fl64_Ints)
  have runM: "runMicrosecond g = real_of_int k"
    using k flk by (simp add: runMicrosecond_def unitHundredsOfMicrosecond_def)
  have "sleepMicrosecond g = fl64 (real_of_int (100000 - k))"
    by (simp add: sleepMicrosecond_def unitHundredsOfMicrosecond_def unit runM)
  with fls have sleepM: "sleepMicrosecond g = real_of_int (100000 - k)" by simp
  have "runDuration g = wrap64 (k * 1000)"
    using k0 by (simp add: runDuration_def runM float_to_int_microseconds Microsecond_def)
  with int64_microseconds [OF k0] have run: "runDuration g = k * 1000"
    by (simp add: wrap64_id)
  have s0: "0 \<le> 100000 - k" "100000 - k \<le> 100000" using k0 by simp_all
  have "sleepDuration g = wrap64 ((100000 - k) * 1000)"
    using float_to_int_microseconds [OF s0]
    by (simp add: sleepDuration_def sleepM Microsecond_def)
  with int64_microseconds [OF s0] have sleep: "sleepDuration g = (100000 - k) * 1000"
    by (simp add: wrap64_id)
  have "real_of_int (k * 1000) = real_of_int (100 * Millisecond) * (?p / 100)"
    using k by (simp add: Millisecond_def)
  with run sleep show ?thesis by (simp add: dutyCycle_def Millisecond_def)
qed

text \<open>A CPU percentage of 50: 50 ms of spinning and 50 ms of sleep.\<close>

theorem dutyCycle_percentage_witness:
  "0 \<le> cpuPercentage (NewNodeGenerator 2 50 100 0 [] 1) \<and>
   cpuPercentage (NewNodeGenerator 2 50 100 0 [] 1) \<le> 100 \<and>
   1000 * cpuPercentage (NewNodeGenerator 2 50 100 0 [] 1) \<in> \<int> \<and>
   dutyCycle (NewNodeGenerator 2 50 100 0 [] 1) = [BusyWait 50000000, Sleep 50000000]"
proof -
  let ?g = "NewNodeGenerator 2 50 100 0 [] 1"
  have p: "cpuPercentage ?g = 50" by (simp add: NewNodeGenerator_def)
  have h: "0 \<le> cpuPercentage ?g" "cpuPercentage ?g \<le> 100" "1000 * cpuPercentage ?g \<in> \<int>"
    using p by simp_all
  from dutyCycle_percentage [OF h] p
  have "dutyCycle ?g = [BusyWait (runDuration ?g), Sleep (100 * Millisecond - runDuration ?g)]"
    and "real_of_int (runDuration ?g) = real_of_int (100 * Millisecond) * (50 / 100)"
    by simp_all
  moreover from this(2) have "real_of_int (runDuration ?g) = real_of_int 50000000"
    by (simp add: Millisecond_def)
  then have "runDuration ?g = 50000000" by (simp only: of_int_eq_iff)
  ultimately show ?thesis using h by (simp add: Millisecond_def)
qed

text \<open>
  The claim as stated takes the configured value as a fraction in \<open>[0, 1]\<close> of the
  100 ms unit. With the value 1/2 a worker spins for 500 microseconds, not for 50 ms.
\<close>

theorem dutyCycle_fraction_counterexample:
  "0 \<le> cpuPercentage (NewNodeGenerator 1 (1 / 2) 100 0 [] 1) \<and>
   cpuPercentage (NewNodeGenerator 1 (1 / 2) 100 0 [] 1) \<le> 1 \<and>
   dutyCycle (NewNodeGenerator 1 (1 / 2) 100 0 [] 1) = [BusyWait 500000, Sleep 99500000] \<and>
   real_of_int (runDuration (NewNodeGenerator 1 (1 / 2) 100 0 [] 1))
     \<noteq> real_of_int (100 * Millisecond) * cpuPercentage (NewNodeGenerator 1 (1 / 2) 100 0 [] 1)"
  by (simp add: NewNodeGenerator_def dutyCycle_def runDuration_def sleepDuration_def
      runMicrosecond_def sleepMicrosecond_def unitHundredsOfMicrosecond_def Microsecond_def
      Millisecond_def fl64_Ints float_to_int_def int64_def wrap64_def)

section \<open>The stop handle\<close>

lemma receives_finished:
  "finished g = Some c \<Longrightarrow>
   \<exists>c'. receives k g = g\<lparr>finished := Some c'\<rparr> \<and> capacity c' = capacity c \<and>
     buffered c' \<le> buffered c"
proof (induction k arbitrary: g c)
  case 0
  then show ?case by (intro exI [of _ c]) simp
next
  case (Suc k)
  show ?case
  proof (cases "recv c")
    case None
    with Suc.prems have "receives (Suc k) g = receives k g" by simp
    with Suc.IH [OF Suc.prems] show ?thesis by simp
  next
    case (Some c1)
    then have c1: "capacity c1 = capacity c" "buffered c1 \<le> buffered c"
      by (auto simp: recv_def split: if_splits)
    from Some Suc.prems have r: "receives (Suc k) g = receives k (g\<lparr>finished := Some c1\<rparr>)"
      by simp
    have "finished (g\<lparr>finished := Some c1\<rparr>) = Some c1" by simp
    from Suc.IH [OF this] obtain c' where
      "receives k (g\<lparr>finished := Some c1\<rparr>) = g\<lparr>finished := Some c1, finished := Some c'\<rparr>"
      "capacity c' = capacity c1" "buffered c' \<le> buffered c1"
      by auto
    with r c1 show ?thesis by (intro exI [of _ c']) simp
  qed
qed

lemma send_after_receives:
  assumes "finished g = Some c" and "buffered c < capacity c"
  shows "\<exists>c'. stop_step SendFinished (receives k g) = Some (g\<lparr>finished := Some c'\<rparr>) \<and>
           capacity c' = capacity c \<and> buffered c' \<le> buffered c + 1"
proof -
  from receives_finished [OF assms(1), of k] obtain c1 where
    c1: "receives k g = g\<lparr>finished := Some c1\<rparr>" "capacity c1 = capacity c"
      "buffered c1 \<le> buffered c"
    by blast
  with assms(2) have "send c1 = Some (c1\<lparr>buffered := buffered c1 + 1\<rparr>)"
    by (simp add: send_def)
  with c1 show ?thesis
    by (intro exI [of _ "c1\<lparr>buffered := buffered c1 + 1\<rparr>"]) simp
qed

text \<open>
  C8. When \<^verbatim>\<open>Generate\<close> returns, the channel is empty and its capacity is at least the
  number of loops started; and under every schedule of receives by the loops, every
  action of the stop handle completes: the invocation ends, with the running flag
  cleared.
\<close>

theorem Generate_stop_never_blocks:
  "case Generate g of (g', loops, handle) \<Rightarrow>
     (\<exists>c. finished g' = Some c \<and> buffered c = 0 \<and> length loops \<le> capacity c) \<and>
     (\<exists>g''. invoke handle ks g' = Some g'' \<and> \<not> running g'')"
proof -
  define g' where "g' = g\<lparr>finished := Some (make_chan 2), running := True\<rparr>"
  define k0 where "k0 = (case ks of [] \<Rightarrow> 0 | k # _ \<Rightarrow> k)"
  define k1 where "k1 = (case tl ks of [] \<Rightarrow> 0 | k # _ \<Rightarrow> k)"
  define k2 where "k2 = (case tl (tl ks) of [] \<Rightarrow> 0 | k # _ \<Rightarrow> k)"
  have G: "Generate g = (g', generateVaryingMemory g' @ generateCPU g',
      [SendFinished, SendFinished, ClearRunning])"
    by (simp add: Generate_def g'_def Let_def)
  have f0: "finished g' = Some (make_chan 2)" by (simp add: g'_def)
  have len: "length (generateVaryingMemory g' @ generateCPU g') \<le> 2"
    by (simp add: generateVaryingMemory_def generateCPU_def)
  from send_after_receives [OF f0, of k0] obtain c1 where
    s1: "stop_step SendFinished (receives k0 g') = Some (g'\<lparr>finished := Some c1\<rparr>)"
    and c1: "capacity c1 = 2" "buffered c1 \<le> 1"
    by (auto simp: make_chan_def)
  have f1: "finished (g'\<lparr>finished := Some c1\<rparr>) = Some c1" by simp
  from c1 have "buffered c1 < capacity c1" by simp
  from send_after_receives [OF f1 this, of k1] obtain c2 where
    s2: "stop_step SendFinished (receives k1 (g'\<lparr>finished := Some c1\<rparr>))
           = Some (g'\<lparr>finished := Some c1, finished := Some c2\<rparr>)"
    by auto
  have f2: "finished (g'\<lparr>finished := Some c1, finished := Some c2\<rparr>) = Some c2" by simp
  from receives_finished [OF f2, of k2] obtain c3 where
    s3: "receives k2 (g'\<lparr>finished := Some c1, finished := Some c2\<rparr>)
           = g'\<lparr>finished := Some c1, finished := Some c2, finished := Some c3\<rparr>"
    by auto
  have "invoke [SendFinished, SendFinished, ClearRunning] ks g'
          = Some (g'\<lparr>finished := Some c3, running := False\<rparr>)"
    using s1 s2 s3 by (simp add: k0_def k1_def k2_def)
  with G f0 len show ?thesis by (simp add: make_chan_def)
qed

text \<open>
  Two cores: two loops on a channel of capacity 2, and the handle completes when one
  loop takes its signal between the two sends.
\<close>

theorem Generate_stop_never_blocks_witness:
  "length (fst (snd (Generate (NewNodeGenerator 2 50 100 10 ''sine'' 4)))) = 2 \<and>
   (\<exists>g''. invoke (snd (snd (Generate (NewNodeGenerator 2 50 100 10 ''sine'' 4)))) [0, 1]
        (fst (Generate (NewNodeGenerator 2 50 100 10 ''sine'' 4))) = Some g'' \<and>
      \<not> running g'')"
proof -
  have "length (fst (snd (Generate (NewNodeGenerator 2 50 100 10 ''sine'' 4)))) = 2"
    by (simp add: Generate_def generateVaryingMemory_def generateCPU_def NewNodeGenerator_def
        Let_def)
  then show ?thesis
    using Generate_stop_never_blocks
      [where g = "NewNodeGenerator 2 50 100 10 ''sine'' 4" and ks = "[0, 1]"]
    by (simp add: case_prod_unfold)
qed

text \<open>
  C2, as amended. The stop handle always sends two signals, whatever the core count.
  The loops started are the memory loop, and the CPU loop if and only if the core count
  is not 0. Invoked while no loop has received, the handle leaves both signals in the
  channel.
\<close>

theorem Generate_signals_and_loops:
  "case Generate g of (g', loops, handle) \<Rightarrow>
     count_list handle SendFinished = 2 \<and>
     loops = MemoryLoop # (if cpuCoresCount g = 0 then [] else [CPULoop]) \<and>
     invoke handle [] g'
       = Some (g'\<lparr>finished := Some \<lparr>capacity = 2, buffered = 2\<rparr>, running := False\<rparr>)"
  by (simp add: Generate_def generateVaryingMemory_def generateCPU_def make_chan_def send_def
      Let_def)

theorem Generate_signals_and_loops_witness:
  "count_list (snd (snd (Generate (NewNodeGenerator 2 50 100 10 ''sine'' 4)))) SendFinished = 2 \<and>
   fst (snd (Generate (NewNodeGenerator 2 50 100 10 ''sine'' 4))) = [MemoryLoop, CPULoop]"
  using Generate_signals_and_loops [of "NewNodeGenerator 2 50 100 10 ''sine'' 4"]
  by (simp add: case_prod_unfold NewNodeGenerator_def)

text \<open>
  The claim as stated asks for one signal when the core count is 0. There the handle
  sends two signals and one loop was started.
\<close>

theorem Generate_no_cores_counterexample:
  "cpuCoresCount (NewNodeGenerator 0 50 100 10 ''sine'' 4) = 0 \<and>
   length (fst (snd (Generate (NewNodeGenerator 0 50 100 10 ''sine'' 4)))) = 1 \<and>
   count_list (snd (snd (Generate (NewNodeGenerator 0 50 100 10 ''sine'' 4)))) SendFinished = 2 \<and>
   map_option finished
     (invoke (snd (snd (Generate (NewNodeGenerator 0 50 100 10 ''sine'' 4)))) []
        (fst (Generate (NewNodeGenerator 0 50 100 10 ''sine'' 4))))
     = Some (Some \<lparr>capacity = 2, buffered = 2\<rparr>)"
  by (simp add: Generate_def generateVaryingMemory_def generateCPU_def NewNodeGenerator_def
      make_chan_def send_def Let_def)

section \<open>The duration budget\<close>

text \<open>
  C7. When the error injector returns nothing and the fan-out ends without error (or
  there is no upstream), and the difference \<open>d - et\<close> fits a duration, the handler
  reports \<open>d - et\<close> to the logger, sleeps for exactly \<open>d - et\<close> if that is positive and
  does not sleep otherwise. In both cases the reply is no status error: it is the
  response whenever the encoder accepts the body built from the message (and the panic
  of the encoder otherwise, whatever the remaining duration).
\<close>

theorem Handle_sleeps_remaining:
  assumes "er = None" and "upstreamURIs = [] \<or> err = None" and "int64 (d - et)"
  shows "sleeps (fst (Handle valid message upstreamURIs er err d et))
           = (if d - et > 0 then [d - et] else []) \<and>
         LogSleepService (d - et) \<in> set (fst (Handle valid message upstreamURIs er err d et)) \<and>
         (valid (responseBody message) \<longrightarrow>
            snd (Handle valid message upstreamURIs er err d et) = Response (responseBody message)) \<and>
         snd (Handle valid message upstreamURIs er err d et)
           = (if valid (responseBody message) then Response (responseBody message)
              else MarshalPanic)"
  using assms by (auto simp: Handle_def wrap64_id Let_def)

text \<open>
  A target of 100 ms with 30 ms elapsed sleeps 70 ms; with 150 ms elapsed there is no
  sleep and the response is returned. The encoder here accepts the quoted text
  \<open>hello\<close>, which is a JSON string.
\<close>

theorem Handle_sleeps_remaining_witness:
  "sleeps (fst (Handle (\<lambda>s. s = [CHR 0x22] @ ''hello'' @ [CHR 0x22]) ''hello''
      [''http://a''] None None 100000000 30000000)) = [70000000] \<and>
   sleeps (fst (Handle (\<lambda>s. s = [CHR 0x22] @ ''hello'' @ [CHR 0x22]) ''hello''
      [] None (Some ''unused'') 100000000 150000000)) = [] \<and>
   snd (Handle (\<lambda>s. s = [CHR 0x22] @ ''hello'' @ [CHR 0x22]) ''hello''
      [] None (Some ''unused'') 100000000 150000000)
     = Response ([CHR 0x22] @ ''hello'' @ [CHR 0x22])"
proof -
  let ?valid = "\<lambda>s. s = [CHR 0x22] @ ''hello'' @ [CHR 0x22]"
  have a: "int64 (100000000 - 30000000)" and b: "int64 (100000000 - 150000000)"
    by (simp_all add: int64_def)
  have v: "?valid (responseBody ''hello'')" by (simp add: responseBody_def)
  show ?thesis
    using v
      Handle_sleeps_remaining [OF refl disjI2 [OF refl] a,
        where valid = ?valid and message = "''hello''" and upstreamURIs = "[''http://a'']"]
      Handle_sleeps_remaining [OF refl disjI1 [OF refl] b,
        where valid = ?valid and message = "''hello''" and err = "Some ''unused''"]
    by (simp add: responseBody_def)
qed

text \<open>
  A message that does not give a JSON value, such as one with a double quote inside,
  ends the request in the panic of the encoder, after the sleep.
\<close>

lemma Handle_invalid_body_panics:
  assumes "er = None" and "upstreamURIs = [] \<or> err = None"
    and "\<not> valid (responseBody message)"
  shows "snd (Handle valid message upstreamURIs er err d et) = MarshalPanic"
  using assms by (auto simp: Handle_def Let_def)

text \<open>
  C10. When the error injector returns nothing and the worker pool returns an error,
  the handler returns that error with the code \<^verbatim>\<open>Internal\<close> right after the fan-out: it
  neither reports nor sleeps the remaining duration. Whatever the collaborators return,
  a call that returns an error has not slept.
\<close>

theorem Handle_upstream_error_skips_sleep:
  assumes "er = None" and "upstreamURIs \<noteq> []" and "err = Some e"
  shows "Handle valid message upstreamURIs er err d et
           = ([StartLoad, FanOut upstreamURIs, StopLoad], StatusError Internal e) \<and>
         sleeps (fst (Handle valid message upstreamURIs er err d et)) = [] \<and>
         (\<forall>er' err' c m. snd (Handle valid message upstreamURIs er' err' d et) = StatusError c m \<longrightarrow>
            sleeps (fst (Handle valid message upstreamURIs er' err' d et)) = [])"
  using assms by (auto simp: Handle_def Let_def split: option.splits if_splits)

theorem Handle_upstream_error_skips_sleep_witness:
  "Handle (\<lambda>s. True) ''hello'' [''http://a'', ''grpc://b''] None (Some ''boom'')
       100000000 30000000
     = ([StartLoad, FanOut [''http://a'', ''grpc://b''], StopLoad], StatusError 13 ''boom'') \<and>
   sleeps (fst (Handle (\<lambda>s. True) ''hello'' [''http://a'', ''grpc://b''] None (Some ''boom'')
     100000000 30000000)) = []"
proof -
  have ne: "[''http://a'', ''grpc://b''] \<noteq> []" by simp
  show ?thesis
    using Handle_upstream_error_skips_sleep [OF refl ne refl,
        where valid = "\<lambda>s. True" and message = "''hello''" and e = "''boom''"
          and d = 100000000 and et = 30000000]
    by (simp add: Internal_def)
qed

end
